theory Spec2Isabelle
  imports Main "HOL-Library.Sublist"
begin

text \<open>
  A shallow embedding of the XSSpect scanner: the reflection classifier
  (\<open>AnalyzeResponse\<close> and its helpers), the requester (\<open>SendRequest\<close> with its bounded
  retry), the retry loop of the browser verifier, and the orchestrator (\<open>scanParameter\<close>
  and the parameter loop of \<open>main\<close>). Pure functions are HOL functions; the network,
  the browser and the clock are a world passed through the calls; a panic is a value.
\<close>

section \<open>Go strings and the functions of package strings used by the scanner\<close>

text \<open>
  A Go string is a sequence of bytes, and \<open>len\<close>, slicing, \<open>strings.Index\<close>,
  \<open>strings.LastIndex\<close>, \<open>strings.Contains\<close> and \<open>strings.ReplaceAll\<close> (with a non-empty
  pattern) all work on bytes. HOL's \<open>string\<close> is a list of 8-bit characters, so the
  two agree. The value \<open>-1\<close> of the index functions is \<open>None\<close>.
\<close>

fun Index :: "string \<Rightarrow> string \<Rightarrow> nat option" where
  "Index [] sub = (if sub = [] then Some 0 else None)"
| "Index (c # cs) sub =
     (if prefix sub (c # cs) then Some 0 else map_option Suc (Index cs sub))"

fun LastIndex :: "string \<Rightarrow> string \<Rightarrow> nat option" where
  "LastIndex [] sub = (if sub = [] then Some 0 else None)"
| "LastIndex (c # cs) sub =
     (case LastIndex cs sub of
        Some i \<Rightarrow> Some (Suc i)
      | None \<Rightarrow> if prefix sub (c # cs) then Some 0 else None)"

definition Contains :: "string \<Rightarrow> string \<Rightarrow> bool" where
  "Contains s sub = (Index s sub \<noteq> None)"

text \<open>
  \<open>strings.ReplaceAll s old new\<close> replaces the non-overlapping occurrences of \<open>old\<close>
  from left to right. The scanner only calls it with the one-byte patterns
  \<open>&\<close>, \<open><\<close>, \<open>>\<close>, \<open>"\<close> and \<open>'\<close>; the empty pattern (where Go inserts \<open>new\<close> around
  every rune) never occurs and is left as the identity here.
\<close>

function ReplaceAll :: "string \<Rightarrow> string \<Rightarrow> string \<Rightarrow> string" where
  "ReplaceAll [] old new = []"
| "ReplaceAll (c # cs) old new =
     (if old \<noteq> [] \<and> prefix old (c # cs)
      then new @ ReplaceAll (drop (length old) (c # cs)) old new
      else c # ReplaceAll cs old new)"
  by pat_completeness auto
termination
  by (relation "measure (\<lambda>(s, old, new). length s)") (auto simp: neq_Nil_conv)

text \<open>
  \<open>strings.ToLower\<close> has two paths. A string of bytes below \<open>0x80\<close> is lowered
  byte by byte (\<open>A..Z\<close> plus 32). Any other string goes through
  \<open>strings.Map(unicode.ToLower, s)\<close>, which decodes UTF-8 and consults the Unicode
  tables of the Go library; that mapping is the parameter \<open>U\<close> of the model, and
  every theorem below holds for each \<open>U\<close>.
\<close>

definition isASCII :: "string \<Rightarrow> bool" where
  "isASCII s = (\<forall>c \<in> set s. (of_char c :: nat) < 128)"

definition lowerByte :: "char \<Rightarrow> char" where
  "lowerByte c =
     (let n = (of_char c :: nat) in if 65 \<le> n \<and> n \<le> 90 then char_of (n + 32) else c)"

definition ToLower :: "(string \<Rightarrow> string) \<Rightarrow> string \<Rightarrow> string" where
  "ToLower U s = (if isASCII s then map lowerByte s else U s)"

text \<open>
  \<open>for _, char := range payload\<close> decodes the payload rune by rune, and
  \<open>string(rune(char))\<close> encodes the rune again. A well-formed UTF-8 sequence gives
  back its own bytes; a byte that starts no well-formed sequence is the rune
  \<open>U+FFFD\<close> of width one, which encodes as \<open>EF BF BD\<close>. \<open>decodeRune\<close> returns the
  encoded rune and the number of bytes consumed, following the first-byte table and
  the accept ranges of package \<open>unicode/utf8\<close>.
\<close>

definition RuneError :: string where
  "RuneError = [char_of (239::nat), char_of (191::nat), char_of (189::nat)]"

definition byteAt :: "string \<Rightarrow> nat \<Rightarrow> nat" where
  "byteAt s i = (if i < length s then of_char (s ! i) else 0)"

definition decodeRune :: "string \<Rightarrow> string \<times> nat" where
  "decodeRune s =
     (let b0 = byteAt s 0 in
      if b0 < 128 then (take 1 s, 1)
      else if b0 < 194 \<or> 244 < b0 then (RuneError, 1)
      else
        let sz = (if b0 < 224 then 2 else if b0 < 240 then 3 else (4::nat));
            lo = (if b0 = 224 then 160 else if b0 = 240 then 144 else (128::nat));
            hi = (if b0 = 237 then 159 else if b0 = 244 then 143 else (191::nat))
        in if length s < sz then (RuneError, 1)
           else if byteAt s 1 < lo \<or> hi < byteAt s 1 then (RuneError, 1)
           else if sz \<le> 2 then (take 2 s, 2)
           else if byteAt s 2 < 128 \<or> 191 < byteAt s 2 then (RuneError, 1)
           else if sz \<le> 3 then (take 3 s, 3)
           else if byteAt s 3 < 128 \<or> 191 < byteAt s 3 then (RuneError, 1)
           else (take 4 s, 4))"

fun runeStrings :: "string \<Rightarrow> string list" where
  "runeStrings [] = []"
| "runeStrings (c # cs) =
     fst (decodeRune (c # cs)) # runeStrings (drop (snd (decodeRune (c # cs)) - 1) cs)"

section \<open>The reflection classifier (scanner/reporter.go)\<close>

datatype ReflectionType = NoReflection | EscapedReflection | RawReflection

record AnalysisResult =
  Type :: ReflectionType
  Parameter :: string
  Payload :: string
  ResponseSnippet :: string

text \<open>A run-time panic of the Go program: a slice expression with a negative bound.\<close>

datatype panic = SliceBoundsOutOfRange

definition escapeHTML :: "string \<Rightarrow> string" where
  "escapeHTML s =
     (let s1 = ReplaceAll s ''&'' ''&amp;'';
          s2 = ReplaceAll s1 ''<'' ''&lt;'';
          s3 = ReplaceAll s2 ''>'' ''&gt;'';
          s4 = ReplaceAll s3 [CHR 0x22] ''&quot;'';
          s5 = ReplaceAll s4 [CHR 0x27] ''&#39;''
      in s5)"

text \<open>
  The loop of \<open>containsEncodedPayload\<close>: for each rune of the payload the candidate is
  \<open>"&#" + string(rune(char)) + ";"\<close>, the rune itself between \<open>&#\<close> and \<open>;\<close>.
\<close>

fun encodedLoop :: "string \<Rightarrow> string list \<Rightarrow> bool" where
  "encodedLoop responseBody [] = False"
| "encodedLoop responseBody (r # rs) =
     (let decEncoded = ''&#'' @ r @ '';'' in
      if Contains responseBody decEncoded then True else encodedLoop responseBody rs)"

definition containsEncodedPayload :: "string \<Rightarrow> string \<Rightarrow> bool" where
  "containsEncodedPayload responseBody payload = encodedLoop responseBody (runeStrings payload)"

definition commonFragments :: "string list" where
  "commonFragments =
     [''<script'', ''</script>'', ''<script>'',
      ''<style'', ''</style>'', ''<style>'',
      ''<div'', ''</div>'', ''<div>'',
      ''<span'', ''</span>'', ''<span>'',
      ''<svg'', ''</svg>'', ''<svg>'',
      ''<img'', ''</img>'', ''<img>'',
      ''<a'', ''</a>'', ''<a>'',
      ''<body'', ''</body>'', ''<body>'',
      ''<html'', ''</html>'', ''<html>'',
      ''<head'', ''</head>'', ''<head>'',
      ''<link'', ''</link>'', ''<link>'',
      ''<meta'', ''</meta>'', ''<meta>'',
      ''<iframe'', ''</iframe>'', ''<iframe>'',
      ''<form'', ''</form>'', ''<form>'',
      ''<input'', ''</input>'', ''<input>'',
      ''<button'', ''</button>'', ''<button>'',
      ''<p'', ''</p>'', ''<p>'',
      ''<h1'', ''</h1>'', ''<h1>'',
      ''<h2'', ''</h2>'', ''<h2>'',
      ''<h3'', ''</h3>'', ''<h3>'',
      ''<ul'', ''</ul>'', ''<ul>'',
      ''<li'', ''</li>'', ''<li>'',
      ''<table'', ''</table>'', ''<table>'',
      ''<tr'', ''</tr>'', ''<tr>'',
      ''<td'', ''</td>'', ''<td>'']"

definition isCommonHTMLFragment :: "string \<Rightarrow> bool" where
  "isCommonHTMLFragment s = list_ex (\<lambda>fragment. s = fragment) commonFragments"

definition safeContexts :: "string list" where
  "safeContexts =
     [''<!--'', ''<title>'', ''<textarea'', ''<noscript>'', ''<style'', ''<xmp>'',
      ''<plaintext>'', ''<listing>'']"

definition closingTags :: "(string \<times> string) list" where
  "closingTags =
     [(''<!--'', ''-->''),
      (''<title>'', ''</title>''),
      (''<textarea'', ''</textarea>''),
      (''<noscript>'', ''</noscript>''),
      (''<style'', ''</style>''),
      (''<xmp>'', ''</xmp>''),
      (''<plaintext>'', ''''),
      (''<listing>'', ''</listing>'')]"

text \<open>A Go map read of an absent key gives the zero value, the empty string.\<close>

definition closingTagOf :: "string \<Rightarrow> string" where
  "closingTagOf safeCtx = (case map_of closingTags safeCtx of Some t \<Rightarrow> t | None \<Rightarrow> [])"

text \<open>
  The loop over \<open>safeContexts\<close> in \<open>isInDangerousContext\<close>, with the lower-cased
  window, the payload's position in it and \<open>len(payload)\<close>. Every \<open>return\<close> inside the
  loop returns \<open>false\<close>; falling out of the loop returns \<open>true\<close>.
\<close>

fun safeLoop :: "string \<Rightarrow> nat \<Rightarrow> nat \<Rightarrow> string list \<Rightarrow> bool" where
  "safeLoop contextLower payloadPos plen [] = True"
| "safeLoop contextLower payloadPos plen (safeCtx # rest) =
     (case LastIndex (take payloadPos contextLower) safeCtx of
        None \<Rightarrow> safeLoop contextLower payloadPos plen rest
      | Some safeStart \<Rightarrow>
          let closingTag = closingTagOf safeCtx in
          if closingTag = [] then False
          else
            (case Index (drop payloadPos contextLower) closingTag of
               None \<Rightarrow> False
             | Some closingPos \<Rightarrow>
                 if closingPos > plen then False
                 else safeLoop contextLower payloadPos plen rest))"

text \<open>The window: 500 bytes on each side of the first occurrence, clamped to the body.\<close>

definition contextOf :: "string \<Rightarrow> string \<Rightarrow> nat \<Rightarrow> string" where
  "contextOf responseBody payload index =
     (let contextStart = (if index < 500 then 0 else index - 500);
          contextEnd = (if index + length payload + 500 > length responseBody
                        then length responseBody else index + length payload + 500)
      in take (contextEnd - contextStart) (drop contextStart responseBody))"

text \<open>
  \<open>isInDangerousContext\<close>. When the lower-cased payload is not found in the lower-cased
  window, \<open>payloadPos\<close> is \<open>-1\<close> and the first slice \<open>contextLower[:payloadPos]\<close> panics.
\<close>

definition isInDangerousContext :: "(string \<Rightarrow> string) \<Rightarrow> string \<Rightarrow> string \<Rightarrow> panic + bool" where
  "isInDangerousContext U responseBody payload =
     (case Index responseBody payload of
        None \<Rightarrow> Inr False
      | Some index \<Rightarrow>
          let contextLower = ToLower U (contextOf responseBody payload index) in
          (case Index contextLower (ToLower U payload) of
             None \<Rightarrow> Inl SliceBoundsOutOfRange
           | Some payloadPos \<Rightarrow>
               Inr (safeLoop contextLower payloadPos (length payload) safeContexts)))"

definition escapePatterns :: "(string \<times> string) list" where
  "escapePatterns =
     [(''<'', ''&lt;''), (''>'', ''&gt;''), ([CHR 0x22], ''&quot;''),
      ([CHR 0x27], ''&#39;''), ([CHR 0x27], ''&apos;''), (''&'', ''&amp;'')]"

text \<open>The cumulative loop over \<open>escapePatterns\<close>: each pattern rewrites the working string.\<close>

fun patternLoop :: "string \<Rightarrow> string \<Rightarrow> (string \<times> string) list \<Rightarrow> bool" where
  "patternLoop responseBody testPayload [] = False"
| "patternLoop responseBody testPayload ((from, to) # rest) =
     (let testPayload' = ReplaceAll testPayload from to in
      if Contains responseBody testPayload' then True
      else patternLoop responseBody testPayload' rest)"

text \<open>
  The part of \<open>AnalyzeResponse\<close> after the literal-match block: the checks for an
  escaped payload, then \<open>NoReflection\<close>.
\<close>

definition escapedChecks :: "string \<Rightarrow> string \<Rightarrow> ReflectionType" where
  "escapedChecks responseBody payload =
     (let escapedPayload = escapeHTML payload in
      if escapedPayload \<noteq> payload \<and> Contains responseBody escapedPayload then EscapedReflection
      else if patternLoop responseBody payload escapePatterns then EscapedReflection
      else if containsEncodedPayload responseBody payload then EscapedReflection
      else NoReflection)"

definition AnalyzeResponse ::
  "(string \<Rightarrow> string) \<Rightarrow> string \<Rightarrow> string \<Rightarrow> string \<Rightarrow> panic + AnalysisResult" where
  "AnalyzeResponse U responseBody payload parameter =
     (let snippetLength = 40;
          result = \<lparr>Type = NoReflection, Parameter = parameter, Payload = payload,
                    ResponseSnippet = (if length responseBody > snippetLength
                                       then take snippetLength responseBody else responseBody)\<rparr>
      in
      if Contains responseBody payload \<and> (length payload \<ge> 3 \<or> \<not> isCommonHTMLFragment payload)
      then
        (case isInDangerousContext U responseBody payload of
           Inl p \<Rightarrow> Inl p
         | Inr True \<Rightarrow> Inr (result\<lparr>Type := RawReflection\<rparr>)
         | Inr False \<Rightarrow> Inr (result\<lparr>Type := EscapedReflection\<rparr>))
      else Inr (result\<lparr>Type := escapedChecks responseBody payload\<rparr>))"

section \<open>The requester (scanner/requester.go)\<close>

text \<open>
  A Go \<open>error\<close> value, by how it is built: \<open>Err msg\<close> is an error of the library with
  the message \<open>msg\<close>; \<open>Wrap prefix e\<close> is \<open>fmt.Errorf(prefix + "%w", e)\<close>, a new error
  that wraps \<open>e\<close>. \<open>errorString\<close> is the method \<open>Error()\<close>.
\<close>

datatype err = Err string | Wrap string err

fun errorString :: "err \<Rightarrow> string" where
  "errorString (Err msg) = msg"
| "errorString (Wrap pre e) = pre @ errorString e"

definition MaxRetries :: nat where
  "MaxRetries = 2"

record RequestConfig =
  URL :: string
  Method :: string

record RequestResult =
  StatusCode :: int
  ResponseBody :: string
  Error :: "err option"

definition retryablePatterns :: "string list" where
  "retryablePatterns =
     [''timeout'', ''connection refused'', ''connection reset'', ''temporary failure'',
      ''network is unreachable'', ''no route to host'', ''broken pipe'',
      ''connection timed out'', ''i/o timeout'']"

definition isRetryableError :: "(string \<Rightarrow> string) \<Rightarrow> err option \<Rightarrow> bool" where
  "isRetryableError U e =
     (case e of
        None \<Rightarrow> False
      | Some e' \<Rightarrow>
          let errStr = ToLower U (errorString e') in
          list_ex (\<lambda>pattern. Contains errStr pattern) retryablePatterns)"

text \<open>
  What one call of \<open>client.Do\<close>, followed by \<open>io.ReadAll\<close> of the body, can give:
  \<open>DoError\<close>, the transport call fails; \<open>ReadError\<close>, a response with this status
  arrives and reading its body fails; \<open>Response\<close>, a response with this status and
  body.
\<close>

datatype http_outcome = DoError err | ReadError int err | Response int string

text \<open>
  The world outside the program. \<open>mapLower\<close> is the Unicode path of \<open>strings.ToLower\<close>.
  \<open>BuildRequestURL\<close> (package \<open>net/url\<close>) and the error of \<open>http.NewRequest\<close> are
  functions of their arguments. \<open>clientDo n\<close> is the outcome of the \<open>n\<close>-th call of
  \<open>client.Do\<close> of the run, for the request sent; \<open>startBrowser n\<close> tells whether
  \<open>NewBrowserVerifier\<close> and \<open>Start\<close> both succeed at the \<open>n\<close>-th start;
  \<open>VerifyXSSExecution n url\<close> is the result \<open>(detected, xssType, err)\<close> of the \<open>n\<close>-th
  browser check. Every theorem holds for each such world.
\<close>

record env =
  mapLower :: "string \<Rightarrow> string"
  BuildRequestURL :: "string \<Rightarrow> string \<Rightarrow> string \<Rightarrow> err + string"
  newRequestError :: "RequestConfig \<Rightarrow> err option"
  clientDo :: "nat \<Rightarrow> RequestConfig \<Rightarrow> http_outcome"
  startBrowser :: "nat \<Rightarrow> bool"
  VerifyXSSExecution :: "nat \<Rightarrow> string \<Rightarrow> bool \<times> string \<times> err option"

text \<open>
  The effects of the program so far: the number of \<open>client.Do\<close> calls, the
  \<open>time.Sleep\<close> calls of the retry loops in seconds, the browsers started, the browser
  checks made and the browsers closed.
\<close>

record world =
  doCalls :: nat
  slept :: "nat list"
  browserStarts :: nat
  verifyCalls :: nat
  browserCloses :: nat

text \<open>
  The loop \<open>for attempt := 0; attempt <= MaxRetries; attempt++\<close> of \<open>SendRequest\<close>, from
  the attempt \<open>attempt\<close> with the current \<open>lastErr\<close>. After the loop \<open>lastErr\<close> is wrapped;
  it is never \<open>nil\<close> there (each \<open>continue\<close> sets it), and \<open>%w\<close> of \<open>nil\<close> would print
  \<open>%!w(<nil>)\<close>.
\<close>

function sendLoop ::
  "env \<Rightarrow> RequestConfig \<Rightarrow> nat \<Rightarrow> err option \<Rightarrow> world \<Rightarrow> RequestResult \<times> world" where
  "sendLoop E config attempt lastErr w =
     (if attempt \<le> MaxRetries then
        (case newRequestError E config of
           Some e \<Rightarrow> sendLoop E config (attempt + 1) (Some e) w
         | None \<Rightarrow>
             (case clientDo E (doCalls w) config of
                DoError e \<Rightarrow>
                  if attempt < MaxRetries \<and> isRetryableError (mapLower E) (Some e)
                  then sendLoop E config (attempt + 1) (Some e)
                         (w\<lparr>doCalls := doCalls w + 1, slept := slept w @ [attempt + 1]\<rparr>)
                  else (\<lparr>StatusCode = 0, ResponseBody = [], Error = Some e\<rparr>,
                        w\<lparr>doCalls := doCalls w + 1\<rparr>)
              | ReadError status e \<Rightarrow>
                  (\<lparr>StatusCode = 0, ResponseBody = [],
                    Error = Some (Wrap ''failed to read response body: '' e)\<rparr>,
                   w\<lparr>doCalls := doCalls w + 1\<rparr>)
              | Response status body \<Rightarrow>
                  (\<lparr>StatusCode = status, ResponseBody = body, Error = None\<rparr>,
                   w\<lparr>doCalls := doCalls w + 1\<rparr>)))
      else
        (\<lparr>StatusCode = 0, ResponseBody = [],
          Error = (case lastErr of
                     Some e \<Rightarrow> Some (Wrap ''request failed after 2 retries: '' e)
                   | None \<Rightarrow> Some (Err ''request failed after 2 retries: %!w(<nil>)''))\<rparr>,
         w))"
  by pat_completeness auto
termination
  by (relation "measure (\<lambda>(E, config, attempt, lastErr, w). MaxRetries + 1 - attempt)") auto

text \<open>The equation of the loop is unfolded by hand, one attempt at a time.\<close>

declare sendLoop.simps [simp del]

definition SendRequest :: "env \<Rightarrow> RequestConfig \<Rightarrow> world \<Rightarrow> RequestResult \<times> world" where
  "SendRequest E config w = sendLoop E config 0 None w"

section \<open>The browser verifier's retry loop (BrowserVerifier.VerifyWithRetry)\<close>

function verifyLoop ::
  "env \<Rightarrow> string \<Rightarrow> nat \<Rightarrow> nat \<Rightarrow> err option \<Rightarrow> world
     \<Rightarrow> (bool \<times> string \<times> err option) \<times> world" where
  "verifyLoop E url maxRetries attempt lastErr w =
     (if attempt \<le> maxRetries then
        (case VerifyXSSExecution E (verifyCalls w) url of
           (detected, xssType, None) \<Rightarrow>
             ((detected, xssType, None), w\<lparr>verifyCalls := verifyCalls w + 1\<rparr>)
         | (detected, xssType, Some e) \<Rightarrow>
             verifyLoop E url maxRetries (attempt + 1) (Some e)
               (if attempt < maxRetries
                then w\<lparr>verifyCalls := verifyCalls w + 1, slept := slept w @ [1]\<rparr>
                else w\<lparr>verifyCalls := verifyCalls w + 1\<rparr>))
      else ((False, [], lastErr), w))"
  by pat_completeness auto
termination
  by (relation "measure (\<lambda>(E, url, maxRetries, attempt, lastErr, w). maxRetries + 1 - attempt)")
    auto

declare verifyLoop.simps [simp del]

definition VerifyWithRetry ::
  "env \<Rightarrow> string \<Rightarrow> nat \<Rightarrow> world \<Rightarrow> (bool \<times> string \<times> err option) \<times> world" where
  "VerifyWithRetry E url maxRetries w = verifyLoop E url maxRetries 0 None w"

section \<open>The orchestrator (scanParameter and the loop of main)\<close>

record ScanResult =
  Parameter :: string
  Payload :: string
  ReflectionType :: ReflectionType
  BrowserVerified :: bool
  XSSEventType :: string

record Config =
  URL :: string
  Params :: "string list"
  Method :: string
  StopOnHit :: bool
  ShowAll :: bool
  CustomPayload :: string
  PayloadFile :: string
  BrowserVerify :: bool
  ChromeDriverPath :: string
  GenerateReport :: bool
  CSVOutput :: string

text \<open>
  One iteration of \<open>for _, payload := range payloads\<close> up to the \<open>append\<close>:
  \<open>None\<close> when the iteration ends in \<open>continue\<close> and records nothing, \<open>Some r\<close> when it
  appends \<open>r\<close>. \<open>browserVerifier\<close> tells whether the verifier is not \<open>nil\<close>. Printing
  is left out. A panic of \<open>AnalyzeResponse\<close> ends the program.
\<close>

definition trial ::
  "env \<Rightarrow> Config \<Rightarrow> bool \<Rightarrow> string \<Rightarrow> string \<Rightarrow> world \<Rightarrow> panic + (ScanResult option \<times> world)" where
  "trial E config browserVerifier param payload w =
     (case BuildRequestURL E (Config.URL config) param payload of
        Inl e \<Rightarrow> Inr (None, w)
      | Inr testURL \<Rightarrow>
          (case SendRequest E \<lparr>RequestConfig.URL = testURL,
                               RequestConfig.Method = Config.Method config\<rparr> w of
             (result, w1) \<Rightarrow>
               if Error result \<noteq> None then Inr (None, w1)
               else
                 (case AnalyzeResponse (mapLower E) (ResponseBody result) payload param of
                    Inl p \<Rightarrow> Inl p
                  | Inr analysis \<Rightarrow>
                      if BrowserVerify config \<and> browserVerifier \<and> Type analysis = RawReflection
                      then
                        (case VerifyWithRetry E testURL 1 w1 of
                           ((detected, eventType, verr), w2) \<Rightarrow>
                             if verr \<noteq> None then
                               Inr (Some \<lparr>Parameter = param, Payload = payload,
                                          ReflectionType = Type analysis,
                                          BrowserVerified = False, XSSEventType = []\<rparr>, w2)
                             else if detected then
                               Inr (Some \<lparr>Parameter = param, Payload = payload,
                                          ReflectionType = Type analysis,
                                          BrowserVerified = True, XSSEventType = eventType\<rparr>, w2)
                             else
                               Inr (Some \<lparr>Parameter = param, Payload = payload,
                                          ReflectionType = Type analysis,
                                          BrowserVerified = False, XSSEventType = []\<rparr>, w2))
                      else
                        Inr (Some \<lparr>Parameter = param, Payload = payload,
                                   ReflectionType = Type analysis,
                                   BrowserVerified = False, XSSEventType = []\<rparr>, w1))))"

text \<open>
  The payload loop of \<open>scanParameter\<close>. It returns the results appended, in order:
  \<open>results = append(results, scanResult)\<close>, then \<open>return results\<close> at once when the
  verdict is \<open>RawReflection\<close> and \<open>StopOnHit\<close> is set, else the next payload.
\<close>

fun scanLoop ::
  "env \<Rightarrow> Config \<Rightarrow> bool \<Rightarrow> string \<Rightarrow> string list \<Rightarrow> world \<Rightarrow> panic + (ScanResult list \<times> world)" where
  "scanLoop E config browserVerifier param [] w = Inr ([], w)"
| "scanLoop E config browserVerifier param (payload # rest) w =
     (case trial E config browserVerifier param payload w of
        Inl p \<Rightarrow> Inl p
      | Inr (None, w1) \<Rightarrow> scanLoop E config browserVerifier param rest w1
      | Inr (Some r, w1) \<Rightarrow>
          if ReflectionType r = RawReflection \<and> StopOnHit config then Inr ([r], w1)
          else
            (case scanLoop E config browserVerifier param rest w1 of
               Inl p \<Rightarrow> Inl p
             | Inr (rs, w2) \<Rightarrow> Inr (r # rs, w2)))"

text \<open>
  \<open>scanParameter\<close>: the browser is started when \<open>BrowserVerify\<close> is set, the verifier
  stays \<open>nil\<close> when the start fails, and the deferred \<open>Close\<close> runs on return when it
  was started.
\<close>

definition scanParameter ::
  "env \<Rightarrow> Config \<Rightarrow> string \<Rightarrow> string list \<Rightarrow> world \<Rightarrow> panic + (ScanResult list \<times> world)" where
  "scanParameter E config param payloads w =
     (let browserVerifier = (BrowserVerify config \<and> startBrowser E (browserStarts w));
          w0 = (if BrowserVerify config then w\<lparr>browserStarts := browserStarts w + 1\<rparr> else w)
      in
      case scanLoop E config browserVerifier param payloads w0 of
        Inl p \<Rightarrow> Inl p
      | Inr (results, w1) \<Rightarrow>
          Inr (results,
               if browserVerifier then w1\<lparr>browserCloses := browserCloses w1 + 1\<rparr> else w1))"

text \<open>
  The loop of \<open>main\<close> over \<open>config.Params\<close>:
  \<open>scanSummary.Results = append(scanSummary.Results, paramResults...)\<close>.
\<close>

fun mainLoop ::
  "env \<Rightarrow> Config \<Rightarrow> string list \<Rightarrow> string list \<Rightarrow> world \<Rightarrow> panic + (ScanResult list \<times> world)" where
  "mainLoop E config [] payloads w = Inr ([], w)"
| "mainLoop E config (param # params) payloads w =
     (case scanParameter E config param payloads w of
        Inl p \<Rightarrow> Inl p
      | Inr (paramResults, w1) \<Rightarrow>
          (case mainLoop E config params payloads w1 of
             Inl p \<Rightarrow> Inl p
           | Inr (rs, w2) \<Rightarrow> Inr (paramResults @ rs, w2)))"

section \<open>Concrete worlds for the examples\<close>

text \<open>
  The examples run the model in small worlds: a URL builder that appends
  \<open>?param=payload\<close>, requests that are always well formed, a browser that starts, and
  the network and browser behaviour given as arguments. All strings are ASCII, so the
  Unicode mapping is never consulted; it is the identity.
\<close>

definition exampleEnv ::
  "(nat \<Rightarrow> RequestConfig \<Rightarrow> http_outcome) \<Rightarrow> (nat \<Rightarrow> string \<Rightarrow> bool \<times> string \<times> err option) \<Rightarrow> env" where
  "exampleEnv net browser =
     \<lparr>mapLower = id,
      BuildRequestURL = (\<lambda>baseURL parameter payload. Inr (baseURL @ ''?'' @ parameter @ ''='' @ payload)),
      newRequestError = (\<lambda>config. None),
      clientDo = net,
      startBrowser = (\<lambda>n. True),
      VerifyXSSExecution = browser\<rparr>"

definition world0 :: world where
  "world0 = \<lparr>doCalls = 0, slept = [], browserStarts = 0, verifyCalls = 0, browserCloses = 0\<rparr>"

definition alwaysTimeout :: "nat \<Rightarrow> RequestConfig \<Rightarrow> http_outcome" where
  "alwaysTimeout n config = DoError (Err ''dial tcp: i/o timeout'')"

definition timeoutThen500 :: "nat \<Rightarrow> RequestConfig \<Rightarrow> http_outcome" where
  "timeoutThen500 n config =
     (if n = 0 then DoError (Err ''dial tcp: i/o timeout'') else Response 500 ''server error'')"

definition bodyReadFails :: "nat \<Rightarrow> RequestConfig \<Rightarrow> http_outcome" where
  "bodyReadFails n config = ReadError 200 (Err ''unexpected EOF'')"

definition noBrowser :: "nat \<Rightarrow> string \<Rightarrow> bool \<times> string \<times> err option" where
  "noBrowser n url = (False, [], None)"

definition getX :: RequestConfig where
  "getX = \<lparr>RequestConfig.URL = ''http://x.test/s?q=1'', RequestConfig.Method = ''GET''\<rparr>"

definition echoAfterFirst :: "nat \<Rightarrow> RequestConfig \<Rightarrow> http_outcome" where
  "echoAfterFirst n config =
     (if n = 0 then Response 200 ''nothing here'' else Response 200 (RequestConfig.URL config))"

definition alertBrowser :: "nat \<Rightarrow> string \<Rightarrow> bool \<times> string \<times> err option" where
  "alertBrowser n url = (True, ''alert'', None)"

definition resetThenEcho :: "nat \<Rightarrow> RequestConfig \<Rightarrow> http_outcome" where
  "resetThenEcho n config =
     (if n = 0 then DoError (Err ''tls: handshake failure'')
      else Response 200 (RequestConfig.URL config))"

definition exampleConfig :: Config where
  "exampleConfig =
     \<lparr>Config.URL = ''http://x.test/s'', Params = [''q'', ''name''], Config.Method = ''GET'',
      StopOnHit = True, ShowAll = False, CustomPayload = [], PayloadFile = [],
      BrowserVerify = True, ChromeDriverPath = ''chromedriver'', GenerateReport = False,
      CSVOutput = []\<rparr>"

section \<open>Facts about the string functions\<close>

lemma Index_empty_sub: "Index s [] = Some 0"
  by (cases s) simp_all

lemma ToLower_Nil: "ToLower U [] = []"
  by (simp add: ToLower_def isASCII_def)

lemma Index_SomeD:
  "Index s sub = Some i \<Longrightarrow> \<exists>post. drop i s = sub @ post \<and> i \<le> length s"
proof (induction s arbitrary: i)
  case Nil
  then show ?case by (auto split: if_splits)
next
  case (Cons c cs)
  show ?case
  proof (cases "prefix sub (c # cs)")
    case True
    with Cons.prems show ?thesis by (auto simp: prefix_def)
  next
    case False
    with Cons.prems obtain j where "Index cs sub = Some j" "i = Suc j" by auto
    with Cons.IH show ?thesis by auto
  qed
qed

lemma Index_found: "Index (pre @ sub @ post) sub \<noteq> None"
proof (induction pre)
  case Nil
  have "prefix sub (sub @ post)" by simp
  then show ?case by (cases "sub @ post") auto
next
  case (Cons c pre)
  then show ?case by auto
qed

lemma isASCII_take: "isASCII s \<Longrightarrow> isASCII (take n s)"
  by (auto simp: isASCII_def dest: in_set_takeD)

lemma isASCII_drop: "isASCII s \<Longrightarrow> isASCII (drop n s)"
  by (auto simp: isASCII_def dest: in_set_dropD)

section \<open>The classifier\<close>

lemma safeLoop_at_start:
  "\<forall>c \<in> set cs. c \<noteq> [] \<Longrightarrow> safeLoop contextLower 0 plen cs = True"
  by (induction cs) (auto split: option.splits)

lemma isInDangerousContext_empty_payload: "isInDangerousContext U responseBody [] = Inr True"
  by (simp add: isInDangerousContext_def Index_empty_sub ToLower_Nil safeLoop_at_start
      safeContexts_def)

text \<open>
  C10. For the empty payload, \<open>AnalyzeResponse\<close> returns \<open>RawReflection\<close> for every
  response body, the empty body included: the empty string is contained in every body,
  is no common HTML fragment, and no safe container starts before position 0. The
  result holds for every Unicode mapping \<open>U\<close>, so for bodies of any bytes.
\<close>

theorem empty_payload_is_raw:
  "AnalyzeResponse U responseBody [] parameter =
     Inr \<lparr>Type = RawReflection, Parameter = parameter, Payload = [],
          ResponseSnippet = take 40 responseBody\<rparr>"
  by (simp add: AnalyzeResponse_def Contains_def Index_empty_sub isCommonHTMLFragment_def
      commonFragments_def isInDangerousContext_empty_payload)

theorem empty_payload_is_raw_witness:
  "AnalyzeResponse id [] [] ''q'' =
     Inr \<lparr>Type = RawReflection, Parameter = ''q'', Payload = [], ResponseSnippet = []\<rparr>
   \<and> Type (projr (AnalyzeResponse id ''<!-- -->'' [] ''q'')) = RawReflection"
  using empty_payload_is_raw [of id "[]" "''q''"]
    empty_payload_is_raw [of id "''<!-- -->''" "''q''"]
  by simp

text \<open>
  C1. A payload of length at least 3 that stands verbatim inside a safe container is to
  be classified \<open>EscapedReflection\<close>. The code does so for \<open><!-- abc -->\<close>, where a
  space separates the payload from \<open>-->\<close>, but for \<open><title>abc</title>\<close> and
  \<open><textarea>abc</textarea>\<close> the closing tag starts at offset \<open>len(payload)\<close> from
  the payload, the test \<open>closingPos > len(payload)\<close> fails, and the result is
  \<open>RawReflection\<close>.
\<close>

theorem adjacent_closing_tag_is_raw:
  "AnalyzeResponse U ''<title>abc</title>'' ''abc'' parameter =
     Inr \<lparr>Type = RawReflection, Parameter = parameter, Payload = ''abc'',
          ResponseSnippet = ''<title>abc</title>''\<rparr>
   \<and> AnalyzeResponse U ''<textarea>abc</textarea>'' ''abc'' parameter =
     Inr \<lparr>Type = RawReflection, Parameter = parameter, Payload = ''abc'',
          ResponseSnippet = ''<textarea>abc</textarea>''\<rparr>
   \<and> AnalyzeResponse U ''<!-- abc -->'' ''abc'' parameter =
     Inr \<lparr>Type = EscapedReflection, Parameter = parameter, Payload = ''abc'',
          ResponseSnippet = ''<!-- abc -->''\<rparr>"
  by (simp add: AnalyzeResponse_def Contains_def isInDangerousContext_def contextOf_def
      ToLower_def isASCII_def lowerByte_def safeContexts_def closingTagOf_def closingTags_def)

theorem adjacent_closing_tag_is_raw_witness:
  "Type (projr (AnalyzeResponse id ''<title>abc</title>'' ''abc'' ''q'')) = RawReflection
   \<and> Type (projr (AnalyzeResponse id ''<textarea>abc</textarea>'' ''abc'' ''q'')) = RawReflection
   \<and> Type (projr (AnalyzeResponse id ''<!-- abc -->'' ''abc'' ''q'')) = EscapedReflection"
  using adjacent_closing_tag_is_raw [of id "''q''"] by simp

text \<open>
  C4. A body that holds the numeric character reference of the payload's characters
  (\<open>&#60;\<close> for \<open><\<close>), and neither the payload nor its escaped forms, is to be
  classified \<open>EscapedReflection\<close>. \<open>containsEncodedPayload\<close> searches for \<open>&#<;\<close>, the
  character itself between \<open>&#\<close> and \<open>;\<close>, so the result is \<open>NoReflection\<close>.
\<close>

theorem numeric_reference_not_detected:
  "\<not> Contains ''&#60;'' ''<''
   \<and> AnalyzeResponse U ''&#60;'' ''<'' parameter =
     Inr \<lparr>Type = NoReflection, Parameter = parameter, Payload = ''<'',
          ResponseSnippet = ''&#60;''\<rparr>"
  by (simp add: AnalyzeResponse_def Contains_def escapedChecks_def escapeHTML_def
      escapePatterns_def containsEncodedPayload_def decodeRune_def byteAt_def)

theorem numeric_reference_not_detected_witness:
  "\<not> Contains ''&#60;'' ''<''
   \<and> Type (projr (AnalyzeResponse id ''&#60;'' ''<'' ''q'')) = NoReflection"
  using numeric_reference_not_detected [of id "''q''"] by simp





text \<open>
  The loop over the safe contexts answers \<open>dangerous\<close> exactly when every safe opening
  tag found before the payload has a closing tag that starts at most \<open>len(payload)\<close>
  bytes after the payload's start.
\<close>

lemma safeLoop_iff:
  "safeLoop contextLower payloadPos plen cs =
     (\<forall>c \<in> set cs. LastIndex (take payloadPos contextLower) c = None
        \<or> (closingTagOf c \<noteq> [] \<and>
            (\<exists>closingPos. Index (drop payloadPos contextLower) (closingTagOf c) = Some closingPos
               \<and> closingPos \<le> plen)))"
  by (induction cs) (auto simp: Let_def split: option.splits)

text \<open>
  C3. When a safe opening tag stands before the payload in the window and its closing
  tag does not occur after the payload in the window, the test is to answer
  \<open>dangerous\<close>. The code looks for the closing tag from the payload's position on and
  returns \<open>false\<close> when \<open>closingPos == -1\<close>. In the body
  \<open><!-- c --><script>alert(1)</script>\<close> the comment is opened and closed before the
  payload \<open><script>alert(1)</script>\<close>, \<open>-->\<close> does not occur from the payload on, and the
  test answers \<open>safe\<close>: the verdict is \<open>EscapedReflection\<close>. The unclosed
  \<open><textarea>abc\<close> is judged \<open>safe\<close> by the same branch.
\<close>

theorem missing_closing_tag_judged_safe:
  "Index ''<!-- c --><script>alert(1)</script>'' ''<script>alert(1)</script>'' = Some 10
   \<and> LastIndex (take 10 ''<!-- c --><script>alert(1)</script>'') ''<!--'' = Some 0
   \<and> Index (drop 10 ''<!-- c --><script>alert(1)</script>'') ''-->'' = None
   \<and> isInDangerousContext U ''<!-- c --><script>alert(1)</script>'' ''<script>alert(1)</script>''
       = Inr False
   \<and> AnalyzeResponse U ''<!-- c --><script>alert(1)</script>'' ''<script>alert(1)</script>''
         parameter =
       Inr \<lparr>Type = EscapedReflection, Parameter = parameter,
            Payload = ''<script>alert(1)</script>'',
            ResponseSnippet = ''<!-- c --><script>alert(1)</script>''\<rparr>
   \<and> isInDangerousContext U ''<textarea>abc'' ''abc'' = Inr False"
  by (simp add: AnalyzeResponse_def Contains_def isInDangerousContext_def contextOf_def
      ToLower_def isASCII_def lowerByte_def safeContexts_def closingTagOf_def closingTags_def)

theorem missing_closing_tag_judged_safe_witness:
  "isInDangerousContext id ''<!-- c --><script>alert(1)</script>'' ''<script>alert(1)</script>''
       = Inr False
   \<and> Type (projr (AnalyzeResponse id ''<!-- c --><script>alert(1)</script>''
         ''<script>alert(1)</script>'' ''q'')) = EscapedReflection"
  using missing_closing_tag_judged_safe [of id "''q''"] by simp

text \<open>
  The window always holds the payload: it starts at most 500 bytes before the first
  occurrence and ends after it.
\<close>

lemma context_holds_payload:
  assumes "Index responseBody payload = Some index"
  shows "\<exists>pre post. contextOf responseBody payload index = pre @ payload @ post"
proof -
  from Index_SomeD [OF assms] obtain post where
    d: "drop index responseBody = payload @ post" and le: "index \<le> length responseBody"
    by blast
  define start where "start = (if index < 500 then 0 else index - 500)"
  have s: "start \<le> index" by (simp add: start_def)
  have body: "responseBody = take index responseBody @ payload @ post"
    using d by (metis append_take_drop_id)
  have len: "length responseBody = index + length payload + length post"
    using d le by (metis add.assoc append_take_drop_id length_append length_take min.absorb2)
  have dr: "drop start responseBody = drop start (take index responseBody) @ payload @ post"
    using s le by (subst body) simp
  define A where "A = drop start (take index responseBody)"
  have lenA: "length A = index - start"
    using le by (simp add: A_def)
  define stop where "stop = (if index + length payload + 500 > length responseBody
                      then length responseBody else index + length payload + 500)"
  have n: "stop - start = length A + length payload + min 500 (length post)"
    using s len lenA by (auto simp: stop_def)
  have "contextOf responseBody payload index = take (stop - start) (A @ payload @ post)"
    unfolding contextOf_def Let_def start_def [symmetric] stop_def [symmetric]
    by (simp add: dr A_def)
  also have "\<dots> = A @ payload @ take (min 500 (length post)) post"
    unfolding n by simp
  finally have "contextOf responseBody payload index
      = A @ payload @ take (min 500 (length post)) post" .
  then show ?thesis by blast
qed

text \<open>
  X1. On ASCII input the classifier never panics: when the body and the payload hold
  only bytes below \<open>0x80\<close>, the lower-cased payload is found in the lower-cased
  window, so \<open>isInDangerousContext\<close> and \<open>AnalyzeResponse\<close> return a value.
\<close>

theorem ascii_never_panics:
  assumes "isASCII responseBody" and "isASCII payload"
  shows "(\<exists>dangerous. isInDangerousContext U responseBody payload = Inr dangerous)
       \<and> (\<exists>r. AnalyzeResponse U responseBody payload parameter = Inr r)"
proof -
  have d: "\<exists>dangerous. isInDangerousContext U responseBody payload = Inr dangerous"
  proof (cases "Index responseBody payload")
    case None
    then show ?thesis by (auto simp: isInDangerousContext_def)
  next
    case (Some index)
    from context_holds_payload [OF Some] obtain pre post where
      c: "contextOf responseBody payload index = pre @ payload @ post" by blast
    have "isASCII (contextOf responseBody payload index)"
      unfolding contextOf_def Let_def using assms(1) by (simp add: isASCII_take isASCII_drop)
    then have "ToLower U (contextOf responseBody payload index)
        = map lowerByte pre @ map lowerByte payload @ map lowerByte post"
      by (simp add: ToLower_def c)
    moreover have "ToLower U payload = map lowerByte payload"
      using assms(2) by (simp add: ToLower_def)
    ultimately have "Index (ToLower U (contextOf responseBody payload index)) (ToLower U payload)
        \<noteq> None"
      using Index_found by simp
    with Some show ?thesis
      by (auto simp: isInDangerousContext_def Let_def)
  qed
  then have "\<exists>r. AnalyzeResponse U responseBody payload parameter = Inr r"
    unfolding AnalyzeResponse_def Let_def by (auto split: bool.splits)
  with d show ?thesis by blast
qed

theorem ascii_never_panics_witness:
  "isASCII ''<b>Hi</b>'' \<and> isASCII ''Hi''
   \<and> (\<exists>r. AnalyzeResponse id ''<b>Hi</b>'' ''Hi'' ''q'' = Inr r)"
proof -
  have a: "isASCII ''<b>Hi</b>''" and b: "isASCII ''Hi''"
    by (simp_all add: isASCII_def)
  show ?thesis
    using ascii_never_panics [OF a b, of id "''q''"] a b by blast
qed

text \<open>
  X2. When the body holds the fully HTML-escaped form of the payload and not the
  payload itself, the verdict is \<open>EscapedReflection\<close>.
\<close>

theorem escaped_form_is_escaped:
  assumes "\<not> Contains responseBody payload"
    and "Contains responseBody (escapeHTML payload)"
  shows "AnalyzeResponse U responseBody payload parameter =
           Inr \<lparr>Type = EscapedReflection, Parameter = parameter, Payload = payload,
                ResponseSnippet = take 40 responseBody\<rparr>"
proof -
  have "escapeHTML payload \<noteq> payload" using assms by auto
  then show ?thesis
    using assms by (simp add: AnalyzeResponse_def escapedChecks_def Let_def)
qed

theorem escaped_form_is_escaped_witness:
  "\<not> Contains ''x=&quot;&gt;&lt;img src=x&gt;'' ([CHR 0x22] @ ''><img src=x>'')
   \<and> Contains ''x=&quot;&gt;&lt;img src=x&gt;'' (escapeHTML ([CHR 0x22] @ ''><img src=x>''))
   \<and> Type (projr (AnalyzeResponse id ''x=&quot;&gt;&lt;img src=x&gt;''
         ([CHR 0x22] @ ''><img src=x>'') ''q'')) = EscapedReflection"
proof -
  have a: "\<not> Contains ''x=&quot;&gt;&lt;img src=x&gt;'' ([CHR 0x22] @ ''><img src=x>'')"
    by (simp add: Contains_def)
  have b: "Contains ''x=&quot;&gt;&lt;img src=x&gt;'' (escapeHTML ([CHR 0x22] @ ''><img src=x>''))"
    by (simp add: Contains_def escapeHTML_def)
  show ?thesis
    using escaped_form_is_escaped [OF a b, of id "''q''"] a b by simp
qed

section \<open>The requester\<close>

text \<open>
  The calls of \<open>client.Do\<close> made by the loop are those numbered from \<open>doCalls w\<close> up
  to \<open>doCalls w'\<close>. A call that receives a response is the last one and its status and
  body are the result; a call that is followed by another one failed with a retryable
  error.
\<close>

lemma single_call_trace:
  assumes "doCalls w' = doCalls w + 1"
    and "\<And>status body. clientDo E (doCalls w) config = Response status body
           \<Longrightarrow> result = \<lparr>StatusCode = status, ResponseBody = body, Error = None\<rparr>"
  shows "doCalls w \<le> doCalls w'
     \<and> (\<forall>n status body. doCalls w \<le> n \<and> n < doCalls w' \<and> clientDo E n config = Response status body
           \<longrightarrow> result = \<lparr>StatusCode = status, ResponseBody = body, Error = None\<rparr>
               \<and> doCalls w' = n + 1)
     \<and> (\<forall>n. doCalls w \<le> n \<and> n + 1 < doCalls w'
           \<longrightarrow> (\<exists>e. clientDo E n config = DoError e \<and> isRetryableError (mapLower E) (Some e)))"
proof -
  have only: "n = doCalls w" if "doCalls w \<le> n" "n < doCalls w'" for n
    using that assms(1) by linarith
  show ?thesis
    using assms only by (metis le_add1 not_less add_lessD1 less_add_one)
qed

lemma sendLoop_trace:
  "sendLoop E config attempt lastErr w = (result, w') \<Longrightarrow>
     doCalls w \<le> doCalls w'
     \<and> (\<forall>n status body. doCalls w \<le> n \<and> n < doCalls w' \<and> clientDo E n config = Response status body
           \<longrightarrow> result = \<lparr>StatusCode = status, ResponseBody = body, Error = None\<rparr>
               \<and> doCalls w' = n + 1)
     \<and> (\<forall>n. doCalls w \<le> n \<and> n + 1 < doCalls w'
           \<longrightarrow> (\<exists>e. clientDo E n config = DoError e \<and> isRetryableError (mapLower E) (Some e)))"
proof (induction E config attempt lastErr w arbitrary: result w' rule: sendLoop.induct)
  case (1 E config attempt lastErr w)
  show ?case
  proof (cases "attempt \<le> MaxRetries")
    case False
    with "1.prems" show ?thesis
      by (subst (asm) sendLoop.simps) auto
  next
    case att: True
    show ?thesis
    proof (cases "newRequestError E config")
      case (Some e)
      with att "1.prems" have "sendLoop E config (attempt + 1) (Some e) w = (result, w')"
        by (subst (asm) sendLoop.simps) simp
      from "1.IH"(2) [OF att Some this] show ?thesis .
    next
      case None
      show ?thesis
      proof (cases "clientDo E (doCalls w) config")
        case (DoError e)
        show ?thesis
        proof (cases "attempt < MaxRetries \<and> isRetryableError (mapLower E) (Some e)")
          case True
          let ?w1 = "w\<lparr>doCalls := doCalls w + 1, slept := slept w @ [attempt + 1]\<rparr>"
          from att None DoError True "1.prems"
          have run: "sendLoop E config (attempt + 1) (Some e) ?w1 = (result, w')"
            by (subst (asm) sendLoop.simps) simp
          have ih: "doCalls ?w1 \<le> doCalls w'
            \<and> (\<forall>n status body. doCalls ?w1 \<le> n \<and> n < doCalls w' \<and> clientDo E n config = Response status body
                  \<longrightarrow> result = \<lparr>StatusCode = status, ResponseBody = body, Error = None\<rparr>
                      \<and> doCalls w' = n + 1)
            \<and> (\<forall>n. doCalls ?w1 \<le> n \<and> n + 1 < doCalls w'
                  \<longrightarrow> (\<exists>e. clientDo E n config = DoError e \<and> isRetryableError (mapLower E) (Some e)))"
            using "1.IH"(1) [OF att None DoError True run] .
          have first: "clientDo E (doCalls w) config = DoError e"
            "isRetryableError (mapLower E) (Some e)"
            using DoError True by simp_all
          have d: "doCalls ?w1 = doCalls w + 1" by simp
          have p1: "doCalls w \<le> doCalls w'" using ih d by linarith
          have p2: "result = \<lparr>StatusCode = status, ResponseBody = body, Error = None\<rparr>
                \<and> doCalls w' = n + 1"
            if a: "doCalls w \<le> n \<and> n < doCalls w' \<and> clientDo E n config = Response status body"
            for n status body
          proof -
            from a have "n \<noteq> doCalls w" using first by auto
            with a have "doCalls ?w1 \<le> n" by simp
            with a ih show ?thesis by blast
          qed
          have p3: "\<exists>e. clientDo E n config = DoError e \<and> isRetryableError (mapLower E) (Some e)"
            if a: "doCalls w \<le> n \<and> n + 1 < doCalls w'" for n
          proof (cases "n = doCalls w")
            case True
            with first show ?thesis by blast
          next
            case False
            with a have "doCalls ?w1 \<le> n" by simp
            with a ih show ?thesis by blast
          qed
          show ?thesis using p1 p2 p3 by blast
        next
          case False
          with att None DoError "1.prems"
          have "result = \<lparr>StatusCode = 0, ResponseBody = [], Error = Some e\<rparr>"
            "w' = w\<lparr>doCalls := doCalls w + 1\<rparr>"
            by (subst (asm) sendLoop.simps, auto)+
          then show ?thesis
            using DoError by (intro single_call_trace) simp_all
        qed
      next
        case (ReadError status e)
        with att None "1.prems"
        have "w' = w\<lparr>doCalls := doCalls w + 1\<rparr>"
          by (subst (asm) sendLoop.simps) auto
        then show ?thesis
          using ReadError by (intro single_call_trace) simp_all
      next
        case (Response status body)
        with att None "1.prems"
        have "result = \<lparr>StatusCode = status, ResponseBody = body, Error = None\<rparr>"
          "w' = w\<lparr>doCalls := doCalls w + 1\<rparr>"
          by (subst (asm) sendLoop.simps, auto)+
        then show ?thesis
          using Response by (intro single_call_trace) simp_all
      qed
    qed
  qed
qed

text \<open>
  The same for a response whose body cannot be read: the call is the last one, and the
  result carries the wrapped read error, the status 0 and no body.
\<close>

lemma sendLoop_read_error:
  "sendLoop E config attempt lastErr w = (result, w') \<Longrightarrow> doCalls w \<le> n \<Longrightarrow> n < doCalls w'
     \<Longrightarrow> clientDo E n config = ReadError status e
     \<Longrightarrow> result = \<lparr>StatusCode = 0, ResponseBody = [],
                    Error = Some (Wrap ''failed to read response body: '' e)\<rparr>
         \<and> doCalls w' = n + 1"
proof (induction E config attempt lastErr w arbitrary: result w' rule: sendLoop.induct)
  case (1 E config attempt lastErr w)
  note run = "1.prems"(1) and lo = "1.prems"(2) and hi = "1.prems"(3) and rd = "1.prems"(4)
  show ?case
  proof (cases "attempt \<le> MaxRetries")
    case False
    with run have "w' = w" by (subst (asm) sendLoop.simps) auto
    with lo hi show ?thesis by simp
  next
    case att: True
    show ?thesis
    proof (cases "newRequestError E config")
      case (Some e')
      with att run have "sendLoop E config (attempt + 1) (Some e') w = (result, w')"
        by (subst (asm) sendLoop.simps) simp
      from "1.IH"(2) [OF att Some this lo hi rd] show ?thesis .
    next
      case None
      show ?thesis
      proof (cases "clientDo E (doCalls w) config")
        case (DoError e')
        then have ne: "n \<noteq> doCalls w" using rd by auto
        show ?thesis
        proof (cases "attempt < MaxRetries \<and> isRetryableError (mapLower E) (Some e')")
          case True
          let ?w1 = "w\<lparr>doCalls := doCalls w + 1, slept := slept w @ [attempt + 1]\<rparr>"
          from att None DoError True run
          have r: "sendLoop E config (attempt + 1) (Some e') ?w1 = (result, w')"
            by (subst (asm) sendLoop.simps) simp
          have "doCalls ?w1 \<le> n" using lo ne by simp
          from "1.IH"(1) [OF att None DoError True r this hi rd] show ?thesis .
        next
          case False
          with att None DoError run have "w' = w\<lparr>doCalls := doCalls w + 1\<rparr>"
            by (subst (asm) sendLoop.simps) auto
          with lo hi ne show ?thesis by simp
        qed
      next
        case (ReadError status' e')
        with att None run
        have "result = \<lparr>StatusCode = 0, ResponseBody = [],
                    Error = Some (Wrap ''failed to read response body: '' e')\<rparr>"
          "w' = w\<lparr>doCalls := doCalls w + 1\<rparr>"
          by (subst (asm) sendLoop.simps, auto)+
        moreover from this lo hi have "n = doCalls w" by simp
        ultimately show ?thesis using ReadError rd by simp
      next
        case (Response status' body)
        with att None run have "w' = w\<lparr>doCalls := doCalls w + 1\<rparr>"
          by (subst (asm) sendLoop.simps) auto
        with lo hi have "n = doCalls w" by simp
        with Response rd show ?thesis by simp
      qed
    qed
  qed
qed

lemma timeout_retryable: "isRetryableError id (Some (Err ''dial tcp: i/o timeout''))"
  by (simp add: isRetryableError_def retryablePatterns_def ToLower_def isASCII_def lowerByte_def Contains_def)

lemma run_timeoutThen500:
  "SendRequest (exampleEnv timeoutThen500 noBrowser) getX world0 =
     (\<lparr>StatusCode = 500, ResponseBody = ''server error'', Error = None\<rparr>,
      \<lparr>doCalls = 2, slept = [1], browserStarts = 0, verifyCalls = 0, browserCloses = 0\<rparr>)"
  by code_simp

lemma run_bodyReadFails:
  "SendRequest (exampleEnv bodyReadFails noBrowser) getX world0 =
     (\<lparr>StatusCode = 0, ResponseBody = [],
       Error = Some (Wrap ''failed to read response body: '' (Err ''unexpected EOF''))\<rparr>,
      \<lparr>doCalls = 1, slept = [], browserStarts = 0, verifyCalls = 0, browserCloses = 0\<rparr>)"
  by code_simp

text \<open>
  C5, as stated: whenever an attempt receives a valid HTTP response, \<open>SendRequest\<close>
  returns its status code and body with \<open>Error = nil\<close>. After \<open>client.Do\<close> has
  returned a response ("We got a valid HTTP response"), \<open>io.ReadAll\<close> of the body can
  fail; then \<open>SendRequest\<close> returns the status 0, no body and a non-nil \<open>Error\<close>.
\<close>

theorem unreadable_body_counterexample:
  "clientDo (exampleEnv bodyReadFails noBrowser) 0 getX = ReadError 200 (Err ''unexpected EOF'')
   \<and> SendRequest (exampleEnv bodyReadFails noBrowser) getX world0 =
     (\<lparr>StatusCode = 0, ResponseBody = [],
       Error = Some (Wrap ''failed to read response body: '' (Err ''unexpected EOF''))\<rparr>,
      \<lparr>doCalls = 1, slept = [], browserStarts = 0, verifyCalls = 0, browserCloses = 0\<rparr>)
   \<and> StatusCode (fst (SendRequest (exampleEnv bodyReadFails noBrowser) getX world0)) \<noteq> 200
   \<and> Error (fst (SendRequest (exampleEnv bodyReadFails noBrowser) getX world0)) \<noteq> None"
  by (simp add: run_bodyReadFails) (simp add: exampleEnv_def bodyReadFails_def)

text \<open>
  C5, amended. Whenever a call of \<open>client.Do\<close> made by \<open>SendRequest\<close> receives a response
  (200, 403, 500, any status) and its body is read, \<open>SendRequest\<close> returns that status
  and body with \<open>Error = nil\<close> and that call is the last one made. When the body of a
  received response cannot be read, that call is the last one made as well, and
  \<open>SendRequest\<close> returns the status 0, no body and an \<open>Error\<close> that wraps the read
  error. A call is followed by a further one only when it failed with an error that
  \<open>isRetryableError\<close> accepts.
\<close>

theorem response_returned_unretried:
  assumes "SendRequest E config w = (result, w')"
  shows "(\<forall>n status body.
            doCalls w \<le> n \<and> n < doCalls w' \<and> clientDo E n config = Response status body
            \<longrightarrow> result = \<lparr>StatusCode = status, ResponseBody = body, Error = None\<rparr>
                \<and> doCalls w' = n + 1)
       \<and> (\<forall>n status e.
            doCalls w \<le> n \<and> n < doCalls w' \<and> clientDo E n config = ReadError status e
            \<longrightarrow> result = \<lparr>StatusCode = 0, ResponseBody = [],
                           Error = Some (Wrap ''failed to read response body: '' e)\<rparr>
                \<and> doCalls w' = n + 1)
       \<and> (\<forall>n. doCalls w \<le> n \<and> n + 1 < doCalls w'
            \<longrightarrow> (\<exists>e. clientDo E n config = DoError e \<and> isRetryableError (mapLower E) (Some e)))"
proof -
  have run: "sendLoop E config 0 None w = (result, w')"
    using assms by (simp add: SendRequest_def)
  have a: "\<forall>n status body.
            doCalls w \<le> n \<and> n < doCalls w' \<and> clientDo E n config = Response status body
            \<longrightarrow> result = \<lparr>StatusCode = status, ResponseBody = body, Error = None\<rparr>
                \<and> doCalls w' = n + 1"
    and c: "\<forall>n. doCalls w \<le> n \<and> n + 1 < doCalls w'
            \<longrightarrow> (\<exists>e. clientDo E n config = DoError e \<and> isRetryableError (mapLower E) (Some e))"
    using sendLoop_trace [OF run] by blast+
  have b: "\<forall>n status e.
            doCalls w \<le> n \<and> n < doCalls w' \<and> clientDo E n config = ReadError status e
            \<longrightarrow> result = \<lparr>StatusCode = 0, ResponseBody = [],
                           Error = Some (Wrap ''failed to read response body: '' e)\<rparr>
                \<and> doCalls w' = n + 1"
    using sendLoop_read_error [OF run] by blast
  show ?thesis using a b c by blast
qed

theorem response_returned_unretried_witness:
  "SendRequest (exampleEnv timeoutThen500 noBrowser) getX world0 =
     (\<lparr>StatusCode = 500, ResponseBody = ''server error'', Error = None\<rparr>,
      \<lparr>doCalls = 2, slept = [1], browserStarts = 0, verifyCalls = 0, browserCloses = 0\<rparr>)
   \<and> clientDo (exampleEnv timeoutThen500 noBrowser) 1 getX = Response 500 ''server error''
   \<and> (\<exists>e. clientDo (exampleEnv timeoutThen500 noBrowser) 0 getX = DoError e
          \<and> isRetryableError (mapLower (exampleEnv timeoutThen500 noBrowser)) (Some e))
   \<and> clientDo (exampleEnv bodyReadFails noBrowser) 0 getX = ReadError 200 (Err ''unexpected EOF'')
   \<and> fst (SendRequest (exampleEnv bodyReadFails noBrowser) getX world0) =
       \<lparr>StatusCode = 0, ResponseBody = [],
        Error = Some (Wrap ''failed to read response body: '' (Err ''unexpected EOF''))\<rparr>"
proof -
  note t = response_returned_unretried [OF run_timeoutThen500]
  have "\<exists>e. clientDo (exampleEnv timeoutThen500 noBrowser) 0 getX = DoError e
          \<and> isRetryableError (mapLower (exampleEnv timeoutThen500 noBrowser)) (Some e)"
    using t [THEN conjunct2, THEN conjunct2, rule_format, of 0] by (simp add: world0_def)
  moreover have "clientDo (exampleEnv timeoutThen500 noBrowser) 1 getX = Response 500 ''server error''"
    by (simp add: exampleEnv_def timeoutThen500_def)
  moreover have rd: "clientDo (exampleEnv bodyReadFails noBrowser) 0 getX
      = ReadError 200 (Err ''unexpected EOF'')"
    by (simp add: exampleEnv_def bodyReadFails_def)
  moreover have "fst (SendRequest (exampleEnv bodyReadFails noBrowser) getX world0) =
       \<lparr>StatusCode = 0, ResponseBody = [],
        Error = Some (Wrap ''failed to read response body: '' (Err ''unexpected EOF''))\<rparr>"
    using response_returned_unretried [OF run_bodyReadFails, THEN conjunct2, THEN conjunct1,
        rule_format, of 0 200 "Err ''unexpected EOF''"] rd run_bodyReadFails
    by (simp add: world0_def)
  ultimately show ?thesis
    using run_timeoutThen500 by simp
qed

lemma run_alwaysTimeout:
  "SendRequest (exampleEnv alwaysTimeout noBrowser) getX world0 =
     (\<lparr>StatusCode = 0, ResponseBody = [], Error = Some (Err ''dial tcp: i/o timeout'')\<rparr>,
      \<lparr>doCalls = 3, slept = [1, 2], browserStarts = 0, verifyCalls = 0, browserCloses = 0\<rparr>)"
  by code_simp

text \<open>
  C6, as stated: when every attempt fails with a retryable transport error, the
  \<open>Error\<close> returned wraps the last transport error. On the last attempt the test
  \<open>attempt < MaxRetries\<close> fails and the branch "max retries reached or non-retryable
  error" returns the error of \<open>client.Do\<close> as it is; the wrapper
  \<open>request failed after 2 retries\<close> after the loop is not reached.
\<close>

theorem retry_exhaustion_counterexample:
  "clientDo (exampleEnv alwaysTimeout noBrowser) 0 getX = DoError (Err ''dial tcp: i/o timeout'')
   \<and> clientDo (exampleEnv alwaysTimeout noBrowser) 1 getX = DoError (Err ''dial tcp: i/o timeout'')
   \<and> clientDo (exampleEnv alwaysTimeout noBrowser) 2 getX = DoError (Err ''dial tcp: i/o timeout'')
   \<and> isRetryableError id (Some (Err ''dial tcp: i/o timeout''))
   \<and> Error (fst (SendRequest (exampleEnv alwaysTimeout noBrowser) getX world0))
        = Some (Err ''dial tcp: i/o timeout'')
   \<and> Error (fst (SendRequest (exampleEnv alwaysTimeout noBrowser) getX world0))
        \<noteq> Some (Wrap ''request failed after 2 retries: '' (Err ''dial tcp: i/o timeout''))"
  by (simp add: run_alwaysTimeout timeout_retryable) (simp add: exampleEnv_def alwaysTimeout_def)

text \<open>
  C6, amended. When the request is well formed and every attempt fails with a
  retryable transport error, \<open>SendRequest\<close> makes exactly \<open>MaxRetries\<close> attempts beyond
  the first (three calls of \<open>client.Do\<close>), sleeps one second before the first retry and
  two seconds before the second, and returns an outcome whose \<open>Error\<close> is the last
  transport error itself, not wrapped.
\<close>

theorem retry_exhaustion_returns_last_error:
  assumes "newRequestError E config = None"
    and "\<forall>j \<le> MaxRetries. clientDo E (doCalls w + j) config = DoError (e j)
            \<and> isRetryableError (mapLower E) (Some (e j))"
  shows "SendRequest E config w =
           (\<lparr>StatusCode = 0, ResponseBody = [], Error = Some (e MaxRetries)\<rparr>,
            w\<lparr>doCalls := doCalls w + (MaxRetries + 1), slept := slept w @ [1, 2]\<rparr>)"
proof -
  have e0: "clientDo E (doCalls w) config = DoError (e 0)" "isRetryableError (mapLower E) (Some (e 0))"
    using assms(2) [rule_format, of 0] by simp_all
  have e1: "clientDo E (Suc (doCalls w)) config = DoError (e (Suc 0))"
    "isRetryableError (mapLower E) (Some (e (Suc 0)))"
    using assms(2) [rule_format, of "Suc 0"] by (simp_all add: MaxRetries_def)
  have e2: "clientDo E (Suc (Suc (doCalls w))) config = DoError (e 2)"
    using assms(2) [rule_format, of 2] by (simp add: MaxRetries_def)
  show ?thesis
    unfolding SendRequest_def
    apply (subst sendLoop.simps)
    apply (simp add: assms(1) e0 MaxRetries_def)
    apply (subst sendLoop.simps)
    apply (simp add: assms(1) e1 MaxRetries_def)
    apply (subst sendLoop.simps)
    apply (simp add: assms(1) e2 MaxRetries_def)
    done
qed


theorem retry_exhaustion_returns_last_error_witness:
  "newRequestError (exampleEnv alwaysTimeout noBrowser) getX = None
   \<and> SendRequest (exampleEnv alwaysTimeout noBrowser) getX world0 =
     (\<lparr>StatusCode = 0, ResponseBody = [], Error = Some (Err ''dial tcp: i/o timeout'')\<rparr>,
      \<lparr>doCalls = 3, slept = [1, 2], browserStarts = 0, verifyCalls = 0, browserCloses = 0\<rparr>)"
proof -
  have n: "newRequestError (exampleEnv alwaysTimeout noBrowser) getX = None"
    by (simp add: exampleEnv_def)
  have f: "\<forall>j \<le> MaxRetries.
      clientDo (exampleEnv alwaysTimeout noBrowser) (doCalls world0 + j) getX
        = DoError ((\<lambda>j. Err ''dial tcp: i/o timeout'') j)
      \<and> isRetryableError (mapLower (exampleEnv alwaysTimeout noBrowser))
          (Some ((\<lambda>j. Err ''dial tcp: i/o timeout'') j))"
    using timeout_retryable by (simp add: exampleEnv_def alwaysTimeout_def)
  show ?thesis
    using retry_exhaustion_returns_last_error [OF n f] n
    by (simp add: world0_def MaxRetries_def)
qed

lemma sendLoop_bad_request:
  "newRequestError E config = Some e \<Longrightarrow> snd (sendLoop E config attempt lastErr w) = w"
proof (induction E config attempt lastErr w rule: sendLoop.induct)
  case (1 E config attempt lastErr w)
  show ?case
  proof (cases "attempt \<le> MaxRetries")
    case True
    with "1.prems" "1.IH"(2) [OF True "1.prems" "1.prems"] show ?thesis
      by (subst sendLoop.simps) simp
  next
    case False
    then show ?thesis by (subst sendLoop.simps) simp
  qed
qed

lemma sendLoop_sleeps:
  "newRequestError E config = None \<Longrightarrow> attempt \<le> MaxRetries
     \<Longrightarrow> sendLoop E config attempt lastErr w = (result, w')
     \<Longrightarrow> doCalls w < doCalls w' \<and> doCalls w' + attempt \<le> doCalls w + MaxRetries + 1
         \<and> slept w' = slept w @ map Suc [attempt ..< attempt + (doCalls w' - doCalls w) - 1]"
proof (induction E config attempt lastErr w arbitrary: result w' rule: sendLoop.induct)
  case (1 E config attempt lastErr w)
  note ok = "1.prems"(1) and att = "1.prems"(2) and run = "1.prems"(3)
  show ?case
  proof (cases "clientDo E (doCalls w) config")
    case (DoError e)
    show ?thesis
    proof (cases "attempt < MaxRetries \<and> isRetryableError (mapLower E) (Some e)")
      case True
      let ?w1 = "w\<lparr>doCalls := doCalls w + 1, slept := slept w @ [attempt + 1]\<rparr>"
      from att ok DoError True run
      have r: "sendLoop E config (attempt + 1) (Some e) ?w1 = (result, w')"
        by (subst (asm) sendLoop.simps) simp
      have a1: "attempt + 1 \<le> MaxRetries" using True by simp
      from "1.IH"(1) [OF att ok DoError True ok a1 r]
      have ih: "doCalls ?w1 < doCalls w'"
        "doCalls w' + (attempt + 1) \<le> doCalls ?w1 + MaxRetries + 1"
        "slept w' = slept ?w1 @ map Suc [attempt + 1 ..< attempt + 1 + (doCalls w' - doCalls ?w1) - 1]"
        by simp_all
      define c where "c = doCalls w' - doCalls ?w1"
      have c: "0 < c" "doCalls w' - doCalls w = Suc c"
        using ih(1) by (simp_all add: c_def)
      have e3: "attempt + 1 + (doCalls w' - doCalls ?w1) - 1 = attempt + c"
        by (simp add: c_def)
      have e4: "attempt + (doCalls w' - doCalls w) - 1 = attempt + c"
        using c(2) by simp
      have "slept w' = slept w @ [Suc attempt] @ map Suc [Suc attempt ..< attempt + c]"
        using ih(3) unfolding e3 by simp
      also have "[Suc attempt] @ map Suc [Suc attempt ..< attempt + c]
          = map Suc [attempt ..< attempt + c]"
        using c(1) by (simp add: upt_conv_Cons)
      finally have "slept w' = slept w @ map Suc [attempt ..< attempt + (doCalls w' - doCalls w) - 1]"
        unfolding e4 .
      then show ?thesis using ih(1,2) by simp
    next
      case False
      with att ok DoError run
      have "w' = w\<lparr>doCalls := doCalls w + 1\<rparr>"
        by (subst (asm) sendLoop.simps) auto
      then show ?thesis using att by simp
    qed
  next
    case (ReadError status e)
    with att ok run have "w' = w\<lparr>doCalls := doCalls w + 1\<rparr>"
      by (subst (asm) sendLoop.simps) auto
    then show ?thesis using att by simp
  next
    case (Response status body)
    with att ok run have "w' = w\<lparr>doCalls := doCalls w + 1\<rparr>"
      by (subst (asm) sendLoop.simps) auto
    then show ?thesis using att by simp
  qed
qed

text \<open>
  X3. \<open>SendRequest\<close> makes at most \<open>MaxRetries + 1\<close> calls of \<open>client.Do\<close>, and its
  sleeps are of 1, 2, ... seconds, one before each call after the first.
\<close>

theorem bounded_linear_backoff:
  assumes "SendRequest E config w = (result, w')"
  shows "doCalls w \<le> doCalls w' \<and> doCalls w' \<le> doCalls w + (MaxRetries + 1)
       \<and> slept w' = slept w @ map Suc [0 ..< doCalls w' - doCalls w - 1]"
proof (cases "newRequestError E config")
  case None
  have "0 \<le> MaxRetries" by simp
  from sendLoop_sleeps [OF None this assms [unfolded SendRequest_def]]
  have "doCalls w < doCalls w'" "doCalls w' \<le> doCalls w + (MaxRetries + 1)"
    "slept w' = slept w @ map Suc [0 ..< doCalls w' - doCalls w - 1]"
    by simp_all
  then show ?thesis by simp
next
  case (Some e)
  from sendLoop_bad_request [OF Some, of 0 None w] assms
  have "w' = w" by (simp add: SendRequest_def)
  then show ?thesis by simp
qed

theorem bounded_linear_backoff_witness:
  "SendRequest (exampleEnv timeoutThen500 noBrowser) getX world0 =
     (\<lparr>StatusCode = 500, ResponseBody = ''server error'', Error = None\<rparr>,
      \<lparr>doCalls = 2, slept = [1], browserStarts = 0, verifyCalls = 0, browserCloses = 0\<rparr>)
   \<and> (2::nat) \<le> doCalls world0 + (MaxRetries + 1)"
  using bounded_linear_backoff [OF run_timeoutThen500] run_timeoutThen500 by simp

section \<open>The orchestrator\<close>

lemma trial_verified_raw:
  "trial E config browserVerifier param payload w = Inr (Some r, w')
     \<Longrightarrow> BrowserVerified r \<Longrightarrow> ReflectionType r = RawReflection"
  unfolding trial_def
  by (auto split: sum.splits prod.splits if_splits)

lemma scanLoop_verified_raw:
  "scanLoop E config browserVerifier param payloads w = Inr (rs, w')
     \<Longrightarrow> r \<in> set rs \<Longrightarrow> BrowserVerified r \<Longrightarrow> ReflectionType r = RawReflection"
proof (induction payloads arbitrary: w rs)
  case Nil
  then show ?case by simp
next
  case (Cons payload rest)
  then show ?case
    by (auto split: sum.splits prod.splits option.splits if_splits dest: trial_verified_raw)
qed

lemma scanParameter_verified_raw:
  "scanParameter E config param payloads w = Inr (rs, w')
     \<Longrightarrow> r \<in> set rs \<Longrightarrow> BrowserVerified r \<Longrightarrow> ReflectionType r = RawReflection"
  unfolding scanParameter_def Let_def
  by (auto split: sum.splits prod.splits dest: scanLoop_verified_raw)

text \<open>
  C8. In every result recorded by the orchestrator, over all parameters and payloads,
  \<open>BrowserVerified\<close> is true only if \<open>ReflectionType\<close> is \<open>RawReflection\<close>.
\<close>

theorem verified_only_if_raw:
  "mainLoop E config params payloads w = Inr (rs, w')
     \<Longrightarrow> \<forall>r \<in> set rs. BrowserVerified r \<longrightarrow> ReflectionType r = RawReflection"
proof (induction params arbitrary: w rs)
  case Nil
  then show ?case by simp
next
  case (Cons param params)
  then show ?case
    by (auto split: sum.splits prod.splits dest: scanParameter_verified_raw)
qed

lemma run_example:
  "mainLoop (exampleEnv echoAfterFirst alertBrowser) exampleConfig [''q'', ''name'']
     [''abc'', ''<script>alert(1)</script>'', ''<img src=x>''] world0 =
   Inr ([\<lparr>Parameter = ''q'', Payload = ''abc'', ReflectionType = NoReflection,
           BrowserVerified = False, XSSEventType = []\<rparr>,
         \<lparr>Parameter = ''q'', Payload = ''<script>alert(1)</script>'',
           ReflectionType = RawReflection, BrowserVerified = True, XSSEventType = ''alert''\<rparr>,
         \<lparr>Parameter = ''name'', Payload = ''abc'', ReflectionType = RawReflection,
           BrowserVerified = True, XSSEventType = ''alert''\<rparr>],
        \<lparr>doCalls = 3, slept = [], browserStarts = 2, verifyCalls = 2, browserCloses = 2\<rparr>)"
  by code_simp

theorem verified_only_if_raw_witness:
  "\<lparr>Parameter = ''q'', Payload = ''<script>alert(1)</script>'',
     ReflectionType = RawReflection, BrowserVerified = True, XSSEventType = ''alert''\<rparr>
     \<in> set (fst (projr (mainLoop (exampleEnv echoAfterFirst alertBrowser) exampleConfig
           [''q'', ''name''] [''abc'', ''<script>alert(1)</script>'', ''<img src=x>''] world0)))
   \<and> BrowserVerified \<lparr>Parameter = ''q'', Payload = ''<script>alert(1)</script>'',
        ReflectionType = RawReflection, BrowserVerified = True, XSSEventType = ''alert''\<rparr>
   \<and> ReflectionType \<lparr>Parameter = ''q'', Payload = ''<script>alert(1)</script>'',
        ReflectionType = RawReflection, BrowserVerified = True, XSSEventType = ''alert''\<rparr>
       = RawReflection"
  using verified_only_if_raw [OF run_example] run_example by simp

text \<open>
  C9. When the request of a trial ends in an error (\<open>SendRequest\<close> returns a non-nil
  \<open>Error\<close>), the trial records no result, and the payload loop goes on with the next
  payload from the world the request left: no entry is produced and the scan is not
  aborted.
\<close>

theorem transport_error_skips_trial:
  assumes "BuildRequestURL E (Config.URL config) param payload = Inr testURL"
    and "SendRequest E \<lparr>RequestConfig.URL = testURL, RequestConfig.Method = Config.Method config\<rparr> w
           = (result, w1)"
    and "Error result \<noteq> None"
  shows "trial E config browserVerifier param payload w = Inr (None, w1)
       \<and> scanLoop E config browserVerifier param (payload # rest) w
           = scanLoop E config browserVerifier param rest w1"
  using assms by (simp add: trial_def)

lemma run_resetThenEcho:
  "scanLoop (exampleEnv resetThenEcho alertBrowser) exampleConfig True ''q''
     [''abc'', ''<script>alert(1)</script>''] world0 =
   Inr ([\<lparr>Parameter = ''q'', Payload = ''<script>alert(1)</script>'',
           ReflectionType = RawReflection, BrowserVerified = True, XSSEventType = ''alert''\<rparr>],
        \<lparr>doCalls = 2, slept = [], browserStarts = 0, verifyCalls = 1, browserCloses = 0\<rparr>)"
  by code_simp

theorem transport_error_skips_trial_witness:
  "BuildRequestURL (exampleEnv resetThenEcho alertBrowser) (Config.URL exampleConfig) ''q'' ''abc''
     = Inr ''http://x.test/s?q=abc''
   \<and> Error (fst (SendRequest (exampleEnv resetThenEcho alertBrowser)
        \<lparr>RequestConfig.URL = ''http://x.test/s?q=abc'',
          RequestConfig.Method = Config.Method exampleConfig\<rparr> world0))
       = Some (Err ''tls: handshake failure'')
   \<and> trial (exampleEnv resetThenEcho alertBrowser) exampleConfig True ''q'' ''abc'' world0
       = Inr (None, \<lparr>doCalls = 1, slept = [], browserStarts = 0, verifyCalls = 0,
                      browserCloses = 0\<rparr>)
   \<and> scanLoop (exampleEnv resetThenEcho alertBrowser) exampleConfig True ''q''
        [''<script>alert(1)</script>'']
        \<lparr>doCalls = 1, slept = [], browserStarts = 0, verifyCalls = 0, browserCloses = 0\<rparr>
       = Inr ([\<lparr>Parameter = ''q'', Payload = ''<script>alert(1)</script>'',
                 ReflectionType = RawReflection, BrowserVerified = True,
                 XSSEventType = ''alert''\<rparr>],
              \<lparr>doCalls = 2, slept = [], browserStarts = 0, verifyCalls = 1,
                browserCloses = 0\<rparr>)"
proof -
  have b: "BuildRequestURL (exampleEnv resetThenEcho alertBrowser) (Config.URL exampleConfig)
             ''q'' ''abc'' = Inr ''http://x.test/s?q=abc''"
    by (simp add: exampleEnv_def exampleConfig_def)
  have s: "SendRequest (exampleEnv resetThenEcho alertBrowser)
             \<lparr>RequestConfig.URL = ''http://x.test/s?q=abc'',
               RequestConfig.Method = Config.Method exampleConfig\<rparr> world0
           = (\<lparr>StatusCode = 0, ResponseBody = [], Error = Some (Err ''tls: handshake failure'')\<rparr>,
              \<lparr>doCalls = 1, slept = [], browserStarts = 0, verifyCalls = 0, browserCloses = 0\<rparr>)"
    by code_simp
  have e: "Error \<lparr>StatusCode = 0, ResponseBody = [],
                  Error = Some (Err ''tls: handshake failure'')\<rparr> \<noteq> None"
    by simp
  show ?thesis
    using transport_error_skips_trial [OF b s e, of True "[''<script>alert(1)</script>'']"]
      b s run_resetThenEcho
    by simp
qed

text \<open>
  With \<open>StopOnHit\<close> set, a run of the payload loop that ends with a \<open>RawReflection\<close>
  result has returned at that result: the same run with more payloads appended gives
  the same results and leaves the same world.
\<close>

lemma scanLoop_stop:
  assumes "StopOnHit config"
  shows "scanLoop E config browserVerifier param xs w = Inr (rs, w') \<Longrightarrow> rs \<noteq> []
     \<Longrightarrow> ReflectionType (last rs) = RawReflection
     \<Longrightarrow> scanLoop E config browserVerifier param (xs @ ys) w = Inr (rs, w')"
proof (induction xs arbitrary: w rs)
  case Nil
  then show ?case by simp
next
  case (Cons x xs)
  show ?case
  proof (cases "trial E config browserVerifier param x w")
    case (Inl p)
    with Cons.prems show ?thesis by simp
  next
    case (Inr t)
    obtain ro w1 where t: "t = (ro, w1)" by (cases t)
    show ?thesis
    proof (cases ro)
      case None
      with Inr t Cons.prems have "scanLoop E config browserVerifier param xs w1 = Inr (rs, w')"
        by simp
      from Cons.IH [OF this Cons.prems(2,3)] Inr t None show ?thesis by simp
    next
      case (Some r)
      show ?thesis
      proof (cases "ReflectionType r = RawReflection")
        case True
        with Inr t Some assms Cons.prems show ?thesis by simp
      next
        case False
        with Inr t Some Cons.prems obtain rs' where
          run: "scanLoop E config browserVerifier param xs w1 = Inr (rs', w')" and rs: "rs = r # rs'"
          by (auto split: sum.splits prod.splits)
        have "rs' \<noteq> []" using Cons.prems(3) rs False by auto
        moreover from this have "ReflectionType (last rs') = RawReflection"
          using Cons.prems(3) rs by simp
        ultimately have "scanLoop E config browserVerifier param (xs @ ys) w1 = Inr (rs', w')"
          using Cons.IH [OF run] by simp
        with Inr t Some False rs show ?thesis by simp
      qed
    qed
  qed
qed

text \<open>
  The same in terms of the trial that hits: when the payloads before \<open>p\<close> record no
  \<open>RawReflection\<close> and the trial of \<open>p\<close> does, the loop returns what was recorded so far
  followed by that result, in the world that trial left, whatever payloads follow.
\<close>

lemma scanLoop_first_hit:
  assumes "StopOnHit config"
  shows "scanLoop E config browserVerifier param pre w = Inr (rs1, w1)
     \<Longrightarrow> \<forall>r \<in> set rs1. ReflectionType r \<noteq> RawReflection
     \<Longrightarrow> trial E config browserVerifier param p w1 = Inr (Some r, w2)
     \<Longrightarrow> ReflectionType r = RawReflection
     \<Longrightarrow> scanLoop E config browserVerifier param (pre @ p # post) w = Inr (rs1 @ [r], w2)"
proof (induction pre arbitrary: w rs1)
  case Nil
  with assms show ?case by simp
next
  case (Cons x xs)
  from Cons.prems(1,2) show ?case
    using Cons.IH [OF _ _ Cons.prems(3,4)]
    by (auto split: sum.splits prod.splits option.splits if_splits)
qed

text \<open>
  C7. With \<open>StopOnHit\<close> set: once the scan of a parameter over the payloads up to \<open>p\<close>
  has recorded a \<open>RawReflection\<close> as its last result, the scan of that parameter over
  the whole payload list returns exactly those results (the hit included) and leaves
  exactly that world, so no further request, sleep or browser check is made for the
  payloads after \<open>p\<close>; and the loop of \<open>main\<close> goes on from that world with the scan of
  every following parameter over the whole payload list.
\<close>

theorem stop_on_hit:
  assumes "StopOnHit config"
    and "scanParameter E config param (pre @ [p]) w = Inr (rs, w')"
    and "rs \<noteq> []"
    and "ReflectionType (last rs) = RawReflection"
  shows "scanParameter E config param (pre @ p # post) w = Inr (rs, w')
       \<and> mainLoop E config (param # params) (pre @ p # post) w =
           (case mainLoop E config params (pre @ p # post) w' of
              Inl e \<Rightarrow> Inl e
            | Inr (rs', w'') \<Rightarrow> Inr (rs @ rs', w''))"
proof -
  let ?bv = "BrowserVerify config \<and> startBrowser E (browserStarts w)"
  let ?w0 = "if BrowserVerify config then w\<lparr>browserStarts := browserStarts w + 1\<rparr> else w"
  from assms(2) obtain w1 where
    run: "scanLoop E config ?bv param (pre @ [p]) ?w0 = Inr (rs, w1)"
    and w': "w' = (if ?bv then w1\<lparr>browserCloses := browserCloses w1 + 1\<rparr> else w1)"
    unfolding scanParameter_def Let_def by (auto split: sum.splits prod.splits)
  have "scanLoop E config ?bv param ((pre @ [p]) @ post) ?w0 = Inr (rs, w1)"
    using scanLoop_stop [OF assms(1) run assms(3,4)] .
  then have sp: "scanParameter E config param (pre @ p # post) w = Inr (rs, w')"
    unfolding scanParameter_def Let_def using w' by simp
  then show ?thesis by simp
qed

lemma run_example_parameter:
  "scanParameter (exampleEnv echoAfterFirst alertBrowser) exampleConfig ''q''
     ([''abc''] @ [''<script>alert(1)</script>'']) world0 =
   Inr ([\<lparr>Parameter = ''q'', Payload = ''abc'', ReflectionType = NoReflection,
           BrowserVerified = False, XSSEventType = []\<rparr>,
         \<lparr>Parameter = ''q'', Payload = ''<script>alert(1)</script>'',
           ReflectionType = RawReflection, BrowserVerified = True, XSSEventType = ''alert''\<rparr>],
        \<lparr>doCalls = 2, slept = [], browserStarts = 1, verifyCalls = 1, browserCloses = 1\<rparr>)"
  by code_simp

lemma run_example_rest:
  "mainLoop (exampleEnv echoAfterFirst alertBrowser) exampleConfig [''name'']
     [''abc'', ''<script>alert(1)</script>'', ''<img src=x>'']
     \<lparr>doCalls = 2, slept = [], browserStarts = 1, verifyCalls = 1, browserCloses = 1\<rparr> =
   Inr ([\<lparr>Parameter = ''name'', Payload = ''abc'', ReflectionType = RawReflection,
           BrowserVerified = True, XSSEventType = ''alert''\<rparr>],
        \<lparr>doCalls = 3, slept = [], browserStarts = 2, verifyCalls = 2, browserCloses = 2\<rparr>)"
  by code_simp

theorem stop_on_hit_witness:
  "StopOnHit exampleConfig
   \<and> scanParameter (exampleEnv echoAfterFirst alertBrowser) exampleConfig ''q''
       [''abc'', ''<script>alert(1)</script>'', ''<img src=x>''] world0 =
     Inr ([\<lparr>Parameter = ''q'', Payload = ''abc'', ReflectionType = NoReflection,
             BrowserVerified = False, XSSEventType = []\<rparr>,
           \<lparr>Parameter = ''q'', Payload = ''<script>alert(1)</script>'',
             ReflectionType = RawReflection, BrowserVerified = True, XSSEventType = ''alert''\<rparr>],
          \<lparr>doCalls = 2, slept = [], browserStarts = 1, verifyCalls = 1, browserCloses = 1\<rparr>)
   \<and> mainLoop (exampleEnv echoAfterFirst alertBrowser) exampleConfig [''q'', ''name'']
       [''abc'', ''<script>alert(1)</script>'', ''<img src=x>''] world0 =
     Inr ([\<lparr>Parameter = ''q'', Payload = ''abc'', ReflectionType = NoReflection,
             BrowserVerified = False, XSSEventType = []\<rparr>,
           \<lparr>Parameter = ''q'', Payload = ''<script>alert(1)</script>'',
             ReflectionType = RawReflection, BrowserVerified = True, XSSEventType = ''alert''\<rparr>,
           \<lparr>Parameter = ''name'', Payload = ''abc'', ReflectionType = RawReflection,
             BrowserVerified = True, XSSEventType = ''alert''\<rparr>],
          \<lparr>doCalls = 3, slept = [], browserStarts = 2, verifyCalls = 2, browserCloses = 2\<rparr>)"
proof -
  have h: "StopOnHit exampleConfig" by (simp add: exampleConfig_def)
  show ?thesis
    using stop_on_hit [OF h run_example_parameter, of "[''<img src=x>'']" "[''name'']"]
      h run_example_rest
    by simp
qed

end
